theory Spec2Isabelle
  imports Complex_Main "HOL-Library.Product_Lexorder" "HOL-Library.Multiset"
begin

section \<open>Python primitives used by the check-register parsers\<close>

text \<open>
  Strings are byte strings. Numbers (the dollar amounts, which are Python floats or ints) are
  values of a type parameter: see the section on arithmetic below.
\<close>

datatype py_error = ValueError | IndexError

definition is_digit :: "char \<Rightarrow> bool" where
  "is_digit c = (48 \<le> (of_char c :: nat) \<and> (of_char c :: nat) \<le> 57)"

definition digit_val :: "char \<Rightarrow> nat" where
  "digit_val c = of_char c - 48"

text \<open>\<open>str.isspace\<close> on the code points below 256.\<close>

definition is_space :: "char \<Rightarrow> bool" where
  "is_space c = (let n = (of_char c :: nat)
                 in (9 \<le> n \<and> n \<le> 13) \<or> (28 \<le> n \<and> n \<le> 32) \<or> n = 133 \<or> n = 160)"

definition lstrip :: "string \<Rightarrow> string" where
  "lstrip s = dropWhile is_space s"

definition strip :: "string \<Rightarrow> string" where
  "strip s = rev (dropWhile is_space (rev (dropWhile is_space s)))"

definition startswith :: "string \<Rightarrow> string \<Rightarrow> bool" where
  "startswith s p = (take (length p) s = p)"

text \<open>\<open>p in s\<close> for strings.\<close>

fun py_in :: "string \<Rightarrow> string \<Rightarrow> bool" where
  "py_in p [] = (p = [])"
| "py_in p (c # s) = (startswith (c # s) p \<or> py_in p s)"

text \<open>\<open>s.replace(sub, '')\<close> for a non-empty \<open>sub\<close>: the counter skips the rest of a match.\<close>

fun remove_sub :: "string \<Rightarrow> nat \<Rightarrow> string \<Rightarrow> string" where
  "remove_sub sub k [] = []"
| "remove_sub sub (Suc k) (c # s) = remove_sub sub k s"
| "remove_sub sub 0 (c # s) =
     (if startswith (c # s) sub then remove_sub sub (length sub - 1) s
      else c # remove_sub sub 0 s)"

definition nat_of_digits :: "string \<Rightarrow> nat" where
  "nat_of_digits s = foldl (\<lambda>a c. 10 * a + digit_val c) 0 s"

text \<open>
  The digit body accepted by \<open>int()\<close>: digits, with single underscores allowed between
  digits. The flag says whether the previous character was a digit.
\<close>

fun int_body_ok :: "bool \<Rightarrow> string \<Rightarrow> bool" where
  "int_body_ok prev [] = prev"
| "int_body_ok prev (c # s) =
     (if is_digit c then int_body_ok True s
      else if c = CHR ''_'' \<and> prev then (s \<noteq> [] \<and> is_digit (hd s) \<and> int_body_ok False s)
      else False)"

definition int_body :: "string \<Rightarrow> py_error + int" where
  "int_body s = (if int_body_ok False s
                 then Inr (int (nat_of_digits (filter is_digit s))) else Inl ValueError)"

text \<open>\<open>int(s)\<close> on a string: surrounding white space, an optional sign, the digit body.\<close>

definition py_int :: "string \<Rightarrow> py_error + int" where
  "py_int s = (case strip s of
       [] \<Rightarrow> Inl ValueError
     | c # t \<Rightarrow> if c = CHR ''-'' then map_sum id uminus (int_body t)
                else if c = CHR ''+'' then int_body t
                else int_body (c # t))"

text \<open>\<open>str(n)\<close> for an integer: the decimal digits, most significant first.\<close>

function digits_of :: "nat \<Rightarrow> string" where
  "digits_of n =
     (if n < 10 then [''0123456789'' ! n]
      else digits_of (n div 10) @ [''0123456789'' ! (n mod 10)])"
  by pat_completeness auto
termination
  by (relation "measure id") auto

declare digits_of.simps [simp del]

definition str_int :: "int \<Rightarrow> string" where
  "str_int n = (if n < 0 then CHR ''-'' # digits_of (nat (- n)) else digits_of (nat n))"

definition zfill :: "nat \<Rightarrow> string \<Rightarrow> string" where
  "zfill w s = (case s of
       [] \<Rightarrow> replicate w CHR ''0''
     | c # t \<Rightarrow> if c = CHR ''+'' \<or> c = CHR ''-''
                then c # replicate (w - length s) CHR ''0'' @ t
                else replicate (w - length s) CHR ''0'' @ s)"

section \<open>Arithmetic\<close>

text \<open>
  The parsers compute with Python numbers: amounts are floats from \<open>float(text)\<close> or
  numbers read from JSON, and they are added by \<open>sum\<close>, subtracted, divided, compared and
  rounded by \<open>round(x, 2)\<close>. What these operations return depends on binary floating
  point. The model therefore fixes nothing about them: numbers are the values of a type
  parameter \<open>'a\<close>, and every function that computes with numbers takes the operations it
  uses as a record \<open>N\<close>. A theorem stated for an arbitrary \<open>N\<close> holds for the arithmetic of
  the interpreter, whatever its rounding.
\<close>

record 'a numbers =
  n_lit :: "rat \<Rightarrow> 'a"
  n_int :: "int \<Rightarrow> 'a"
  n_sum :: "'a list \<Rightarrow> 'a"
  n_sub :: "'a \<Rightarrow> 'a \<Rightarrow> 'a"
  n_mul :: "'a \<Rightarrow> 'a \<Rightarrow> 'a"
  n_div :: "'a \<Rightarrow> 'a \<Rightarrow> 'a"
  n_abs :: "'a \<Rightarrow> 'a"
  n_round2 :: "'a \<Rightarrow> 'a"
  n_truthy :: "'a \<Rightarrow> bool"
  n_less :: "'a \<Rightarrow> 'a \<Rightarrow> bool"
  n_eq :: "'a \<Rightarrow> 'a \<Rightarrow> bool"

text \<open>
  \<open>n_lit q\<close> is the value of the float literal whose decimal value is \<open>q\<close> and \<open>n_int k\<close>
  the value of the int literal \<open>k\<close>; \<open>n_sum\<close> is
  \<open>sum\<close> over a generator (it starts from the int \<open>0\<close>); \<open>n_sub\<close>, \<open>n_mul\<close>, \<open>n_div\<close> are
  \<open>-\<close>, \<open>*\<close>, \<open>/\<close>; \<open>n_abs\<close> is \<open>abs\<close>; \<open>n_round2 x\<close> is \<open>round(x, 2)\<close>; \<open>n_truthy\<close> is the
  truth value of a number in a condition; \<open>n_less\<close> is \<open><\<close> and \<open>n_eq\<close> is \<open>==\<close>.
\<close>

text \<open>
  Exact decimal arithmetic, for the worked examples. Rounding to the nearest integer takes
  halves to the even neighbour; \<open>decimal_round2\<close> rounds to hundredths.
\<close>

definition round_half_even :: "rat \<Rightarrow> int" where
  "round_half_even x =
     (let f = \<lfloor>x\<rfloor>; d = x - of_int f
      in if d < 1 / 2 then f else if 1 / 2 < d then f + 1 else if even f then f else f + 1)"

definition decimal_round2 :: "rat \<Rightarrow> rat" where
  "decimal_round2 x = of_int (round_half_even (x * 100)) / 100"

text \<open>
  The interpretation of the operations by exact rational arithmetic. Binary floating point
  agrees with it wherever every operand and every result is an integer below \<open>2^53\<close> in
  magnitude: sums, differences and \<open>round(x, 2)\<close> of such numbers are exact. Elsewhere the
  two differ by rounding errors of relative size \<open>2^-53\<close> for each operation. The examples
  below use whole-dollar amounts; they state totals, which are computed exactly, and the
  outcome of comparisons whose two sides are much further apart than the rounding errors (a
  percentage below 1 against the bound 2).
\<close>

definition exact :: "rat numbers" where
  "exact = \<lparr> n_lit = (\<lambda>q. q), n_int = of_int, n_sum = sum_list, n_sub = (\<lambda>a b. a - b),
             n_mul = (\<lambda>a b. a * b), n_div = (\<lambda>a b. a / b), n_abs = abs,
             n_round2 = decimal_round2, n_truthy = (\<lambda>a. a \<noteq> 0),
             n_less = (\<lambda>a b. a < b), n_eq = (\<lambda>a b. a = b) \<rparr>"

section \<open>Data model\<close>

record 'a sub_line =
  sl_fund_object :: string
  exp_amount :: 'a

text \<open>
  A check entry is a dict in the source. The geometric parser fills every key below; the
  entries of the re-OCR parser have no \<open>sub_lines\<close> (the field is then \<open>[]\<close>), and a
  missing \<open>cancelled\<close> key reads as its \<open>.get\<close> default \<open>False\<close>. The entries of a list are
  distinct objects, as the parsers build them, so that updating one leaves the others alone.
\<close>

record 'a check =
  check_number :: string
  date :: string
  vendor_name :: string
  fund_object :: string
  amount :: 'a
  cancelled :: bool
  page :: int
  sub_lines :: "'a sub_line list"
  month :: string

record 'a summary =
  ocr_gross_total :: 'a
  ocr_cancel_total :: 'a
  ocr_net_total :: 'a
  cover_letter_total :: 'a
  difference :: 'a
  pct_difference :: 'a
  active_check_count :: nat
  cancelled_check_count :: nat
  unique_check_numbers :: nat
  expected_gross_checks :: nat
  expected_cancels :: nat
  expected_net_checks :: nat
  missing_check_numbers :: "string list"
  missing_check_count :: nat

record 'a page_stat =
  ps_page :: int
  ps_check_count :: nat
  ps_total :: 'a
  ps_dpi :: nat
  ps_method :: string

record 'a ocr_summary = "'a summary" +
  pages_processed :: nat
  pages_retried :: nat

definition MONTHS :: "string list" where
  "MONTHS = [''July'', ''August'', ''September'', ''October'', ''November'', ''December'']"

text \<open>The dict \<open>COVER_LETTER_TOTALS\<close>, each float literal by its decimal value.\<close>

definition COVER_LETTER_TOTALS :: "string \<Rightarrow> rat option" where
  "COVER_LETTER_TOTALS m =
     (if m = ''July'' then Some (6052352099 / 100)
      else if m = ''August'' then Some (2470061385 / 100)
      else if m = ''September'' then Some (6528024559 / 100)
      else if m = ''October'' then Some (5219435099 / 100)
      else if m = ''November'' then Some (5094840089 / 100)
      else if m = ''December'' then Some (5905999047 / 100)
      else None)"

text \<open>\<open>COVER_LETTER_TOTALS.get(month, 0)\<close>.\<close>

definition cover_letter_total_of :: "'a numbers \<Rightarrow> string \<Rightarrow> 'a" where
  "cover_letter_total_of N m =
     (case COVER_LETTER_TOTALS m of Some q \<Rightarrow> n_lit N q | None \<Rightarrow> n_int N 0)"

text \<open>\<open>COVER_LETTER_COUNTS.get(month, {})\<close>, as (gross, cancels, net), each read with default 0.\<close>

definition COVER_LETTER_COUNTS :: "string \<Rightarrow> nat \<times> nat \<times> nat" where
  "COVER_LETTER_COUNTS m =
     (if m = ''July'' then (1088, 22, 1066)
      else if m = ''August'' then (457, 27, 430)
      else if m = ''September'' then (1242, 14, 1228)
      else if m = ''October'' then (1122, 11, 1111)
      else if m = ''November'' then (1123, 31, 1092)
      else if m = ''December'' then (1296, 20, 1276)
      else (0, 0, 0))"

section \<open>Gap detection\<close>

text \<open>
  \<open>groups\<close> of the geometric parser's \<open>detect_check_gaps\<close>: a dict from prefix to the
  numbers seen, in insertion order of the keys.
\<close>

fun groups_append :: "(string \<times> int list) list \<Rightarrow> string \<Rightarrow> int \<Rightarrow> (string \<times> int list) list" where
  "groups_append [] k v = [(k, [v])]"
| "groups_append ((k', vs) # g) k v =
     (if k' = k then (k', vs @ [v]) # g else (k', vs) # groups_append g k v)"

fun build_groups :: "(string \<times> int list) list \<Rightarrow> 'a check list \<Rightarrow> py_error + (string \<times> int list) list" where
  "build_groups g [] = Inr g"
| "build_groups g (c # cs) =
     (let cn = check_number c in
      if startswith cn ''020'' \<or> startswith cn ''120'' then
        (case py_int cn of Inl e \<Rightarrow> Inl e
         | Inr n \<Rightarrow> build_groups (groups_append g (take 3 cn) n) cs)
      else if startswith cn ''DDP-'' then
        (case py_int (remove_sub ''DDP-'' 0 cn) of Inl e \<Rightarrow> Inl e
         | Inr n \<Rightarrow> build_groups (groups_append g ''DDP'' n) cs)
      else build_groups g cs)"

definition format_missing :: "string \<Rightarrow> int \<Rightarrow> string" where
  "format_missing prefix n =
     (if prefix = ''DDP'' then ''DDP-'' @ zfill 8 (str_int n) else zfill 10 (str_int n))"

text \<open>The inner loops over one sorted, duplicate-free group: \<open>range(a + 1, b)\<close> is \<open>[a + 1..b - 1]\<close>.\<close>

fun gaps_in :: "string \<Rightarrow> int list \<Rightarrow> string list" where
  "gaps_in prefix (a # b # ns) =
     (if 1 < b - a \<and> b - a \<le> 20 then map (format_missing prefix) [a + 1..b - 1] else [])
     @ gaps_in prefix (b # ns)"
| "gaps_in prefix ns = []"

definition sorted_set :: "int list \<Rightarrow> int list" where
  "sorted_set ns = sort (remdups ns)"

definition detect_check_gaps :: "'a check list \<Rightarrow> py_error + string list" where
  "detect_check_gaps checks =
     (case build_groups [] checks of Inl e \<Rightarrow> Inl e
      | Inr groups \<Rightarrow> Inr (concat (map (\<lambda>(prefix, nums). gaps_in prefix (sorted_set nums)) groups)))"

text \<open>The re-OCR parser's variant looks at ten-digit identifiers only (\<open>^(\d{10})$\<close>;
  \<open>$\<close> also matches before a final newline).\<close>

definition chomp :: "string \<Rightarrow> string" where
  "chomp s = (if s \<noteq> [] \<and> last s = CHR 0x0A then butlast s else s)"

definition ten_digits :: "string \<Rightarrow> bool" where
  "ten_digits cn = (let s = chomp cn in length s = 10 \<and> list_all is_digit s)"

definition regular_nums :: "'a check list \<Rightarrow> int list" where
  "regular_nums checks =
     map (\<lambda>c. int (nat_of_digits (take 10 (check_number c))))
       (filter (\<lambda>c. ten_digits (check_number c)) checks)"

definition ocr_detect_check_gaps :: "'a check list \<Rightarrow> string list" where
  "ocr_detect_check_gaps checks = gaps_in '''' (sorted_set (regular_nums checks))"

section \<open>Batch summaries\<close>

text \<open>\<open>abs(net_total - expected) / expected * 100 if expected else 0\<close>.\<close>

definition pct_diff_of :: "'a numbers \<Rightarrow> 'a \<Rightarrow> 'a \<Rightarrow> 'a" where
  "pct_diff_of N net_total expected =
     (if n_truthy N expected
      then n_mul N (n_div N (n_abs N (n_sub N net_total expected)) expected) (n_int N 100)
      else n_int N 0)"

text \<open>\<open>compute_month_summary\<close> of the geometric parser (\<open>parse_check_register.py\<close>).\<close>

definition compute_month_summary ::
  "'a numbers \<Rightarrow> string \<Rightarrow> 'a check list \<Rightarrow> py_error + 'a summary" where
  "compute_month_summary N mon checks =
     (let active = filter (\<lambda>c. \<not> cancelled c) checks;
          cancelled_cs = filter (\<lambda>c. cancelled c) checks;
          gross_total = n_sum N (map amount active);
          cancel_total = n_sum N (map amount cancelled_cs);
          net_total = gross_total;
          expected = cover_letter_total_of N mon;
          pct_diff = pct_diff_of N net_total expected;
          expected_counts = COVER_LETTER_COUNTS mon
      in case detect_check_gaps checks of Inl e \<Rightarrow> Inl e
         | Inr gaps \<Rightarrow> Inr
            \<lparr> ocr_gross_total = n_round2 N gross_total,
              ocr_cancel_total = n_round2 N cancel_total,
              ocr_net_total = n_round2 N net_total,
              cover_letter_total = expected,
              difference = n_round2 N (n_sub N net_total expected),
              pct_difference = n_round2 N pct_diff,
              active_check_count = length active,
              cancelled_check_count = length cancelled_cs,
              unique_check_numbers = length (remdups (map check_number checks)),
              expected_gross_checks = fst expected_counts,
              expected_cancels = fst (snd expected_counts),
              expected_net_checks = snd (snd expected_counts),
              missing_check_numbers = gaps,
              missing_check_count = length gaps \<rparr>)"

text \<open>\<open>compute_month_summary\<close> of the re-OCR parser (\<open>reocr_check_register.py\<close>).\<close>

definition ocr_compute_month_summary ::
  "'a numbers \<Rightarrow> string \<Rightarrow> 'a check list \<Rightarrow> 'a page_stat list \<Rightarrow> 'a ocr_summary" where
  "ocr_compute_month_summary N mon checks page_stats =
     (let active_checks = filter (\<lambda>c. \<not> cancelled c) checks;
          cancelled_checks = filter (\<lambda>c. cancelled c) checks;
          gross_total = n_sum N (map amount active_checks);
          cancel_total = n_sum N (map amount cancelled_checks);
          net_total = n_sub N gross_total cancel_total;
          expected = cover_letter_total_of N mon;
          pct_diff = pct_diff_of N net_total expected;
          expected_counts = COVER_LETTER_COUNTS mon;
          gaps = ocr_detect_check_gaps checks
      in \<lparr> ocr_gross_total = n_round2 N gross_total,
           ocr_cancel_total = n_round2 N cancel_total,
           ocr_net_total = n_round2 N net_total,
           cover_letter_total = expected,
           difference = n_round2 N (n_sub N net_total expected),
           pct_difference = n_round2 N pct_diff,
           active_check_count = length active_checks,
           cancelled_check_count = length cancelled_checks,
           unique_check_numbers = length (remdups (map check_number checks)),
           expected_gross_checks = fst expected_counts,
           expected_cancels = fst (snd expected_counts),
           expected_net_checks = snd (snd expected_counts),
           missing_check_numbers = gaps,
           missing_check_count = length gaps,
           pages_processed = length page_stats,
           pages_retried = length (filter (\<lambda>s. ps_method s \<noteq> ''full_page'') page_stats) \<rparr>)"

section \<open>Example batches\<close>

text \<open>
  Scenario A of the specification: one single-line record of 100.00, one cancelled record
  of 50.00, one record of two sub-lines 40.00 and 35.00 with the explicit total 75.00. The
  specification numbers them 1, 2 and 4 of a series; the identifiers here are those numbers
  in the series \<open>020\<close> of the register.
\<close>

definition scenario_A :: "rat check list" where
  "scenario_A =
    [\<lparr> check_number = ''0200000001'', date = ''07/01/2025'', vendor_name = ''ALPHA'', fund_object = ''01-4300'',
        amount = 100, cancelled = False, page = 1,
        sub_lines = [\<lparr> sl_fund_object = ''01-4300'', exp_amount = 100 \<rparr>], month = ''July'' \<rparr>,
     \<lparr> check_number = ''0200000002'', date = ''07/01/2025'', vendor_name = ''BETA'', fund_object = '''',
        amount = 50, cancelled = True, page = 1, sub_lines = [], month = ''July'' \<rparr>,
     \<lparr> check_number = ''0200000004'', date = ''07/01/2025'', vendor_name = ''GAMMA'', fund_object = ''01-4300'',
        amount = 75, cancelled = False, page = 1,
        sub_lines = [\<lparr> sl_fund_object = ''01-4300'', exp_amount = 40 \<rparr>,
                     \<lparr> sl_fund_object = ''01-5800'', exp_amount = 35 \<rparr>], month = ''July'' \<rparr>]"


section \<open>Date carry-forward\<close>

text \<open>\<open>fix_missing_dates\<close>: the loop carries \<open>last_date\<close>, which starts as the empty string.\<close>

fun fix_missing_dates_loop :: "string \<Rightarrow> 'a check list \<Rightarrow> 'a check list" where
  "fix_missing_dates_loop last_date [] = []"
| "fix_missing_dates_loop last_date (c # cs) =
     (if date c \<noteq> [] then c # fix_missing_dates_loop (date c) cs
      else c\<lparr>date := last_date\<rparr> # fix_missing_dates_loop last_date cs)"

definition fix_missing_dates :: "'a check list \<Rightarrow> 'a check list" where
  "fix_missing_dates checks = fix_missing_dates_loop [] checks"

text \<open>The specification's reading: the nearest preceding non-empty date of a position, given
  the dates before it; \<open>dflt\<close> when there is none.\<close>

definition nearest_date :: "string \<Rightarrow> string list \<Rightarrow> string" where
  "nearest_date dflt ds = (case filter (\<lambda>d. d \<noteq> []) ds of [] \<Rightarrow> dflt | d # r \<Rightarrow> last (d # r))"

definition undated :: "rat check" where
  "undated = \<lparr> check_number = ''0200000001'', date = [], vendor_name = ''ALPHA'',
      fund_object = ''01-4300'', amount = 100, cancelled = False, page = 1, sub_lines = [],
      month = [] \<rparr>"

definition dated_batch :: "rat check list" where
  "dated_batch =
     [undated\<lparr>date := ''07/01/2025''\<rparr>, undated, undated\<lparr>date := ''07/02/2025''\<rparr>, undated]"

section \<open>Inference of missing check numbers\<close>

definition MISSING :: string where
  "MISSING = ''_MISSING_''"

text \<open>\<open>^DDP-(\d+)$\<close>.\<close>

definition ddp_digits :: "string \<Rightarrow> bool" where
  "ddp_digits cn = (let s = chomp cn
                    in startswith s ''DDP-'' \<and> drop 4 s \<noteq> [] \<and> list_all is_digit (drop 4 s))"

text \<open>
  The two patterns \<open>infer_missing_check_numbers\<close> tries on an identifier, in its order:
  \<open>^(\d{3})(\d{7})$\<close> gives the first three digits as prefix and \<open>int(cn)\<close>; \<open>^DDP-(\d+)$\<close>
  gives the prefix \<open>DDP\<close> and the number after the dash.
\<close>

definition numeric_id :: "string \<Rightarrow> (string \<times> int) option" where
  "numeric_id cn =
     (if ten_digits cn then Some (take 3 cn, int (nat_of_digits (take 10 cn)))
      else if ddp_digits cn then Some (''DDP'', int (nat_of_digits (drop 4 (chomp cn))))
      else None)"

text \<open>The scans for the nearest numeric identifier: the first one in a list of records.\<close>

fun first_numeric :: "'a check list \<Rightarrow> (string \<times> int) option" where
  "first_numeric [] = None"
| "first_numeric (c # cs) =
     (case numeric_id (check_number c) of Some r \<Rightarrow> Some r | None \<Rightarrow> first_numeric cs)"

text \<open>
  One round of the loop over \<open>missing_indices\<close>: \<open>before\<close> is searched from \<open>idx - 1\<close> down
  to 0, \<open>after\<close> from \<open>idx + 1\<close> upwards, both in the list as it stands, which holds the
  identifiers assigned in earlier rounds.
\<close>

definition infer_step :: "'a check list \<Rightarrow> nat \<Rightarrow> 'a check list" where
  "infer_step checks idx =
     (case first_numeric (rev (take idx checks)) of
        None \<Rightarrow> checks
      | Some (before_prefix, before_num) \<Rightarrow>
          (case first_numeric (drop (Suc idx) checks) of
             Some (after_prefix, after_num) \<Rightarrow>
               if after_num - before_num = 2
               then checks[idx := (checks ! idx)\<lparr>check_number :=
                      format_missing before_prefix (before_num + 1)\<rparr>]
               else checks
           | None \<Rightarrow>
               checks[idx := (checks ! idx)\<lparr>check_number :=
                 format_missing before_prefix (before_num + 1)\<rparr>]))"

definition missing_indices :: "'a check list \<Rightarrow> nat list" where
  "missing_indices checks =
     filter (\<lambda>i. check_number (checks ! i) = MISSING) [0..<length checks]"

definition infer_missing_check_numbers :: "'a check list \<Rightarrow> 'a check list" where
  "infer_missing_check_numbers checks =
     (if missing_indices checks = [] then checks
      else foldl infer_step checks (missing_indices checks))"

text \<open>The count the function reports in its warning.\<close>

definition still_missing :: "'a check list \<Rightarrow> nat" where
  "still_missing checks = length (filter (\<lambda>c. check_number c = MISSING) checks)"


definition numbered :: "string \<Rightarrow> rat check" where
  "numbered cn = \<lparr> check_number = cn, date = ''07/01/2025'', vendor_name = ''ALPHA'',
      fund_object = ''01-4300'', amount = 100, cancelled = False, page = 1, sub_lines = [],
      month = [] \<rparr>"

text \<open>A placeholder between two identifiers two apart, and a placeholder that ends a batch.\<close>

definition gap_batch :: "rat check list" where
  "gap_batch = [numbered ''0200000001'', numbered MISSING, numbered ''0200000003'']"


section \<open>Grouping of words into rows\<close>

text \<open>
  A word box of \<open>get_word_boxes\<close>: the dict with the keys \<open>x\<close>, \<open>y\<close>, \<open>w\<close>, \<open>h\<close>, \<open>conf\<close> and
  \<open>text\<close>; the fields carry the prefix \<open>w_\<close>. The coordinates are ints, \<open>conf\<close> is a float.
\<close>

record 'a word =
  w_x :: int
  w_y :: int
  w_w :: int
  w_h :: int
  w_conf :: 'a
  w_text :: string

text \<open>
  \<open>sorted(xs, key=f)\<close> is stable, as is \<open>sort_key f xs\<close>: words with equal keys keep the order
  they have in \<open>xs\<close>. The key \<open>(w['y'], w['x'])\<close> is a tuple, compared lexicographically.
\<close>

definition yx_key :: "'a word \<Rightarrow> int \<times> int" where
  "yx_key w = (w_y w, w_x w)"

text \<open>The loop of \<open>group_into_rows\<close> over \<open>sorted_words[1:]\<close>, with the final flush of the current row.\<close>

fun rows_loop ::
  "int \<Rightarrow> 'a word list list \<Rightarrow> 'a word list \<Rightarrow> int \<Rightarrow> 'a word list \<Rightarrow> 'a word list list" where
  "rows_loop y_tolerance rows current_row current_y [] =
     (if current_row \<noteq> [] then rows @ [sort_key w_x current_row] else rows)"
| "rows_loop y_tolerance rows current_row current_y (word # ws) =
     (if \<bar>w_y word - current_y\<bar> \<le> y_tolerance
      then rows_loop y_tolerance rows (current_row @ [word]) current_y ws
      else rows_loop y_tolerance (rows @ [sort_key w_x current_row]) [word] (w_y word) ws)"

definition group_into_rows :: "'a word list \<Rightarrow> int \<Rightarrow> 'a word list list" where
  "group_into_rows words y_tolerance =
     (if words = [] then []
      else let sorted_words = sort_key yx_key words
           in rows_loop y_tolerance [] [hd sorted_words] (w_y (hd sorted_words)) (tl sorted_words))"

text \<open>Two different words at the same position.\<close>

definition word_A :: "rat word" where
  "word_A = \<lparr> w_x = 100, w_y = 200, w_w = 40, w_h = 30, w_conf = 90, w_text = ''A'' \<rparr>"

definition word_B :: "rat word" where
  "word_B = \<lparr> w_x = 100, w_y = 200, w_w = 40, w_h = 30, w_conf = 90, w_text = ''B'' \<rparr>"

definition word_C :: "rat word" where
  "word_C = \<lparr> w_x = 300, w_y = 205, w_w = 40, w_h = 30, w_conf = 90, w_text = ''C'' \<rparr>"

section \<open>Reconciling amounts, and the run over the months\<close>

text \<open>
  \<open>reconcile_amounts\<close>, one record at a time: \<open>not check['amount'] or check['amount'] == 0\<close> is
  the test for a missing amount.
\<close>

definition amount_missing :: "'a numbers \<Rightarrow> 'a \<Rightarrow> bool" where
  "amount_missing N a = (\<not> n_truthy N a \<or> n_eq N a (n_int N 0))"

definition reconcile_check :: "'a numbers \<Rightarrow> 'a check \<Rightarrow> 'a check" where
  "reconcile_check N c =
     (if cancelled c then c
      else if 1 < length (sub_lines c) then
        (if amount_missing N (amount c)
         then c\<lparr>amount := n_round2 N (n_sum N (map exp_amount (sub_lines c)))\<rparr>
         else c)
      else if length (sub_lines c) = 1 then
        (if amount_missing N (amount c)
         then c\<lparr>amount := exp_amount (sub_lines c ! 0)\<rparr>
         else c)
      else c)"

definition reconcile_amounts :: "'a numbers \<Rightarrow> 'a check list \<Rightarrow> 'a check list" where
  "reconcile_amounts N checks = map (reconcile_check N) checks"

definition assign_month :: "'a check list \<Rightarrow> string \<Rightarrow> 'a check list" where
  "assign_month checks mon = map (\<lambda>c. c\<lparr>month := mon\<rparr>) checks"

text \<open>
  The loop of \<open>main\<close> in the geometric parser. \<open>process_month\<close> is what OCR and page parsing
  return for each month's file; the loop passes each month's records through the four passes
  and keeps the month's summary. An exception ends the run.
\<close>

fun monthly_loop ::
  "'a numbers \<Rightarrow> (string \<Rightarrow> 'a check list) \<Rightarrow> string list \<Rightarrow> py_error + (string \<times> 'a summary) list" where
  "monthly_loop N process_month [] = Inr []"
| "monthly_loop N process_month (mon # ms) =
     (let month_checks = process_month mon;
          month_checks = fix_missing_dates month_checks;
          month_checks = infer_missing_check_numbers month_checks;
          month_checks = reconcile_amounts N month_checks;
          month_checks = assign_month month_checks mon
      in case compute_month_summary N mon month_checks of
           Inl e \<Rightarrow> Inl e
         | Inr summary \<Rightarrow>
             (case monthly_loop N process_month ms of
                Inl e \<Rightarrow> Inl e
              | Inr monthly_summaries \<Rightarrow> Inr ((mon, summary) # monthly_summaries)))"

text \<open>
  The last line both parsers print:
  \<open>'PASS' if all(s['pct_difference'] < 2 for s in monthly_summaries.values()) else 'NEEDS REVIEW'\<close>.
\<close>

definition verdict :: "'a numbers \<Rightarrow> ('a, 'b) summary_scheme list \<Rightarrow> string" where
  "verdict N summaries =
     (if list_all (\<lambda>s. n_less N (pct_difference s) (n_int N 2)) summaries
      then ''PASS'' else ''NEEDS REVIEW'')"

definition main_verdict :: "'a numbers \<Rightarrow> (string \<Rightarrow> 'a check list) \<Rightarrow> py_error + string" where
  "main_verdict N process_month =
     (case monthly_loop N process_month MONTHS of
        Inl e \<Rightarrow> Inl e
      | Inr monthly_summaries \<Rightarrow> Inr (verdict N (map snd monthly_summaries)))"

text \<open>The records of a month after the four passes.\<close>

definition month_records :: "'a numbers \<Rightarrow> (string \<Rightarrow> 'a check list) \<Rightarrow> string \<Rightarrow> 'a check list" where
  "month_records N process_month mon =
     assign_month (reconcile_amounts N (infer_missing_check_numbers
       (fix_missing_dates (process_month mon)))) mon"

text \<open>
  A run in which every month's total is within one percent of the cover letter's, and July
  holds a record whose number was lost between two numbers that are 4 apart.
\<close>

definition paid :: "string \<Rightarrow> string \<Rightarrow> rat \<Rightarrow> rat check" where
  "paid cn vendor a = \<lparr> check_number = cn, date = ''07/01/2025'', vendor_name = vendor,
      fund_object = ''01-4300'', amount = a, cancelled = False, page = 2,
      sub_lines = [\<lparr> sl_fund_object = ''01-4300'', exp_amount = a \<rparr>], month = [] \<rparr>"

definition placeholder_run :: "string \<Rightarrow> rat check list" where
  "placeholder_run mon =
     (if mon = ''July'' then [paid ''0200000001'' ''ALPHA'' 60000000, paid MISSING ''BETA'' 100,
                              paid ''0200000005'' ''GAMMA'' 200]
      else if mon = ''August'' then [paid ''0200000001'' ''ALPHA'' 24700000]
      else if mon = ''September'' then [paid ''0200000001'' ''ALPHA'' 65280000]
      else if mon = ''October'' then [paid ''0200000001'' ''ALPHA'' 52194000]
      else if mon = ''November'' then [paid ''0200000001'' ''ALPHA'' 50948000]
      else if mon = ''December'' then [paid ''0200000001'' ''ALPHA'' 59059000]
      else [])"

section \<open>Parsing the rows of a page\<close>

text \<open>
  The dict that \<open>extract_row_fields\<close> returns for a row: a key is present or absent; the key
  \<open>cancelled\<close> is present only with the value \<open>True\<close>.
\<close>

record 'a row_fields =
  rf_check_num :: "string option"
  rf_date :: "string option"
  rf_vendor :: "string option"
  rf_fd_objt :: "string option"
  rf_cancelled :: bool
  rf_exp_amt :: "'a option"
  rf_check_amt :: "'a option"

text \<open>\<open>rf.get(key, '')\<close> for a string field.\<close>

definition get_str :: "string option \<Rightarrow> string" where
  "get_str v = (case v of None \<Rightarrow> [] | Some s \<Rightarrow> s)"

text \<open>The truth value of \<open>rf.get(key)\<close> for an amount: the key is there and the number is not zero.\<close>

definition has_amount :: "'a numbers \<Rightarrow> 'a option \<Rightarrow> bool" where
  "has_amount N v = (case v of None \<Rightarrow> False | Some a \<Rightarrow> n_truthy N a)"

text \<open>\<open>rf.get(key, 0.0) or 0.0\<close>.\<close>

definition amount_or_zero :: "'a numbers \<Rightarrow> 'a option \<Rightarrow> 'a" where
  "amount_or_zero N v = (case v of None \<Rightarrow> n_lit N 0 | Some a \<Rightarrow> if n_truthy N a then a else n_lit N 0)"

text \<open>\<open>rf.get('check_amt') or rf.get('exp_amt', 0.0) or 0.0\<close>.\<close>

definition first_amount :: "'a numbers \<Rightarrow> 'a row_fields \<Rightarrow> 'a" where
  "first_amount N rf =
     (if has_amount N (rf_check_amt rf) then the (rf_check_amt rf)
      else amount_or_zero N (rf_exp_amt rf))"

text \<open>\<open>RE_ZEBRA_NOISE.match(s)\<close>, the pattern \<open>^[=:+~}{|3\d]*$\<close>.\<close>

definition zebra_noise :: "string \<Rightarrow> bool" where
  "zebra_noise s = list_all (\<lambda>c. c \<in> set ''=:+~}{|3'' \<or> is_digit c) (chomp s)"

text \<open>\<open>s.split()[0]\<close>: the first word; there is none in a string of white space.\<close>

definition first_word :: "string \<Rightarrow> py_error + string" where
  "first_word s =
     (let t = dropWhile is_space s
      in if t = [] then Inl IndexError else Inr (takeWhile (\<lambda>c. \<not> is_space c) t))"

text \<open>What the tests at the head of the loop body decide from the vendor text of a row.\<close>

datatype row_kind = Skip | Stop | Data

definition classify_row :: "string \<Rightarrow> row_kind" where
  "classify_row vendor =
     (if py_in ''Pay to the Order'' vendor \<or> py_in ''Fd-Objt'' vendor \<or> py_in ''Number Date'' vendor
      then Skip
      else if vendor = ''Number'' \<or> vendor = ''Date'' \<or> vendor = ''Amount'' then Skip
      else if py_in ''Checks Dated'' vendor \<or> py_in ''through'' vendor then Skip
      else if py_in ''ReqPay12a'' vendor \<or> py_in ''Board Report'' vendor then Skip
      else if py_in ''preceding Checks'' vendor \<or> py_in ''Board of Trustees'' vendor then Skip
      else if py_in ''ERP for California'' vendor then Skip
      else if py_in ''Total Number'' vendor \<or> py_in ''Fund Recap'' vendor then Stop
      else if ''Cancel'' = strip vendor \<or> ''Reissue'' = strip vendor \<or> ''Net Issue'' = strip vendor
      then Stop
      else if startswith vendor ''Page '' \<and> py_in ''of'' vendor then Skip
      else if py_in ''Generated for'' vendor \<or> py_in ''San Francisco Unified'' vendor then Skip
      else if py_in ''Cancelled on'' vendor \<or> (startswith vendor ''Cancelled'' \<and> py_in ''on'' vendor)
      then Skip
      else Data)"

text \<open>\<open>checks.append(current_check)\<close> under \<open>current_check and current_check.get('check_number')\<close>.\<close>

definition flush :: "'a check list \<Rightarrow> 'a check option \<Rightarrow> 'a check list" where
  "flush checks current_check =
     (case current_check of
        None \<Rightarrow> checks
      | Some c \<Rightarrow> if check_number c \<noteq> [] then checks @ [c] else checks)"

text \<open>The branch \<open>if has_check_num\<close>: a new check entry.\<close>

definition new_check :: "'a numbers \<Rightarrow> int \<Rightarrow> 'a row_fields \<Rightarrow> 'a check" where
  "new_check N page_num rf =
     (let c = \<lparr> check_number = the (rf_check_num rf), date = get_str (rf_date rf),
                 vendor_name = get_str (rf_vendor rf), fund_object = get_str (rf_fd_objt rf),
                 amount = n_lit N 0, cancelled = rf_cancelled rf, page = page_num,
                 sub_lines = [], month = [] \<rparr>
      in if rf_cancelled rf then c\<lparr>amount := first_amount N rf\<rparr>
         else if rf_fd_objt rf \<noteq> None then
           (let exp = amount_or_zero N (rf_exp_amt rf);
                chk = amount_or_zero N (rf_check_amt rf);
                c = c\<lparr>amount := (if n_less N (n_int N 0) chk then chk else exp)\<rparr>
            in if n_less N (n_int N 0) exp
               then c\<lparr>sub_lines := sub_lines c @
                      [\<lparr> sl_fund_object = get_str (rf_fd_objt rf), exp_amount = exp \<rparr>]\<rparr>
               else c)
         else c\<lparr>amount := first_amount N rf\<rparr>)"

text \<open>
  The heuristic for a row without a check number: it opens a new check, whose number was
  lost, when it has a vendor, a fund-object code and an amount, and neither its vendor nor the
  current check's starts with the other's first word.
\<close>

definition is_new_check :: "'a numbers \<Rightarrow> 'a row_fields \<Rightarrow> 'a check \<Rightarrow> py_error + bool" where
  "is_new_check N rf current_check =
     (let vendor = get_str (rf_vendor rf); cur_vendor = vendor_name current_check
      in if vendor \<noteq> [] \<and> rf_fd_objt rf \<noteq> None \<and>
            (has_amount N (rf_exp_amt rf) \<or> has_amount N (rf_check_amt rf))
         then
           (if vendor \<noteq> [] \<and> cur_vendor \<noteq> [] then
              (case first_word cur_vendor of
                 Inl e \<Rightarrow> Inl e
               | Inr w \<Rightarrow>
                   if startswith vendor w then Inr False
                   else (case first_word vendor of
                           Inl e \<Rightarrow> Inl e
                         | Inr v \<Rightarrow> Inr (\<not> startswith cur_vendor v)))
            else Inr False)
         else Inr False)"

definition missing_check :: "'a numbers \<Rightarrow> int \<Rightarrow> 'a row_fields \<Rightarrow> 'a check" where
  "missing_check N page_num rf =
     (let c = \<lparr> check_number = ''_MISSING_'', date = get_str (rf_date rf),
                 vendor_name = get_str (rf_vendor rf), fund_object = get_str (rf_fd_objt rf),
                 amount = first_amount N rf, cancelled = rf_cancelled rf, page = page_num,
                 sub_lines = [], month = [] \<rparr>
      in if has_amount N (rf_exp_amt rf)
         then c\<lparr>sub_lines := sub_lines c @
                [\<lparr> sl_fund_object = get_str (rf_fd_objt rf), exp_amount = the (rf_exp_amt rf) \<rparr>]\<rparr>
         else c)"

text \<open>A genuine continuation line of the current check.\<close>

definition continuation :: "'a numbers \<Rightarrow> 'a row_fields \<Rightarrow> 'a check \<Rightarrow> 'a check" where
  "continuation N rf current_check =
     (let c = (if rf_fd_objt rf \<noteq> None \<and> has_amount N (rf_exp_amt rf)
               then current_check\<lparr>sub_lines := sub_lines current_check @
                      [\<lparr> sl_fund_object = the (rf_fd_objt rf), exp_amount = the (rf_exp_amt rf) \<rparr>]\<rparr>
               else current_check)
      in if has_amount N (rf_check_amt rf) then c\<lparr>amount := the (rf_check_amt rf)\<rparr> else c)"

text \<open>The body of the loop for a row that is neither skipped nor ends the page.\<close>

definition row_step ::
  "'a numbers \<Rightarrow> int \<Rightarrow> 'a check list \<Rightarrow> 'a check option \<Rightarrow> 'a row_fields
     \<Rightarrow> py_error + ('a check list \<times> 'a check option)" where
  "row_step N page_num checks current_check rf =
     (let vendor = get_str (rf_vendor rf)
      in if rf_check_num rf \<noteq> None
         then Inr (flush checks current_check, Some (new_check N page_num rf))
         else (case current_check of
            None \<Rightarrow> Inr (checks, current_check)
          | Some cur \<Rightarrow>
              if rf_fd_objt rf \<noteq> None \<or> has_amount N (rf_exp_amt rf) \<or> has_amount N (rf_check_amt rf)
              then (case is_new_check N rf cur of
                      Inl e \<Rightarrow> Inl e
                    | Inr True \<Rightarrow> Inr (flush checks current_check, Some (missing_check N page_num rf))
                    | Inr False \<Rightarrow> Inr (checks, Some (continuation N rf cur)))
              else if vendor \<noteq> []
              then (if \<not> zebra_noise vendor \<and> 1 < length vendor
                    then Inr (checks, Some (cur\<lparr>vendor_name := vendor_name cur @ '' '' @ vendor\<rparr>))
                    else Inr (checks, current_check))
              else Inr (checks, current_check)))"

fun parse_rows ::
  "'a numbers \<Rightarrow> int \<Rightarrow> 'a check list \<Rightarrow> 'a check option \<Rightarrow> 'a row_fields list
     \<Rightarrow> py_error + 'a check list" where
  "parse_rows N page_num checks current_check [] = Inr (flush checks current_check)"
| "parse_rows N page_num checks current_check (rf # rfs) =
     (case classify_row (get_str (rf_vendor rf)) of
        Skip \<Rightarrow> parse_rows N page_num checks current_check rfs
      | Stop \<Rightarrow> Inr (flush checks current_check)
      | Data \<Rightarrow>
          (case row_step N page_num checks current_check rf of
             Inl e \<Rightarrow> Inl e
           | Inr (checks', current_check') \<Rightarrow> parse_rows N page_num checks' current_check' rfs))"

definition is_data_page :: "'a row_fields list \<Rightarrow> bool" where
  "is_data_page row_fields = (1 \<le> length (filter (\<lambda>rf. rf_check_num rf \<noteq> None) row_fields))"

text \<open>
  \<open>parse_page\<close>, from the row fields that OCR, \<open>group_into_rows\<close> and \<open>extract_row_fields\<close>
  give for the page.
\<close>

definition parse_page :: "'a numbers \<Rightarrow> 'a row_fields list \<Rightarrow> int \<Rightarrow> py_error + 'a check list" where
  "parse_page N row_fields page_num =
     (if \<not> is_data_page row_fields then Inr []
      else parse_rows N page_num [] None row_fields)"

text \<open>
  A check printed on two rows, each with a fund-object code and an expensed amount, 40.00 and
  35.00; no check amount was recognised on either row.
\<close>

definition two_rows :: "rat row_fields list" where
  "two_rows =
     [\<lparr> rf_check_num = Some ''0200000004'', rf_date = Some ''07/01/2025'',
         rf_vendor = Some ''GAMMA'', rf_fd_objt = Some ''01-4300'', rf_cancelled = False,
         rf_exp_amt = Some 40, rf_check_amt = None \<rparr>,
      \<lparr> rf_check_num = None, rf_date = None, rf_vendor = None,
         rf_fd_objt = Some ''01-5800'', rf_cancelled = False,
         rf_exp_amt = Some 35, rf_check_amt = None \<rparr>]"

definition two_rows_check :: "rat check" where
  "two_rows_check =
     \<lparr> check_number = ''0200000004'', date = ''07/01/2025'', vendor_name = ''GAMMA'',
       fund_object = ''01-4300'', amount = 40, cancelled = False, page = 2,
       sub_lines = [\<lparr> sl_fund_object = ''01-4300'', exp_amount = 40 \<rparr>,
                    \<lparr> sl_fund_object = ''01-5800'', exp_amount = 35 \<rparr>],
       month = [] \<rparr>"



(*DEFS-END*)

section \<open>Exact arithmetic on whole numbers\<close>

lemma decimal_round2_of_int: "decimal_round2 (of_int k) = of_int k"
  by (simp add: decimal_round2_def round_half_even_def Let_def)

lemma decimal_round2_numeral [simp]: "decimal_round2 (numeral k) = numeral k"
  using decimal_round2_of_int [of "numeral k"] by simp

lemma decimal_round2_zero [simp]: "decimal_round2 0 = 0"
  using decimal_round2_of_int [of 0] by simp

lemma exact_simps [simp]:
  "n_lit exact q = q" "n_int exact k = of_int k" "n_sum exact xs = sum_list xs" "n_sub exact a b = a - b"
  "n_round2 exact a = decimal_round2 a"
  by (simp_all add: exact_def)

section \<open>Gaps of the example batches\<close>

lemma py_int_0200000001: "py_int ''0200000001'' = Inr 200000001"
  by (simp add: py_int_def strip_def is_space_def int_body_def is_digit_def nat_of_digits_def
      digit_val_def Let_def)

lemma py_int_0200000002: "py_int ''0200000002'' = Inr 200000002"
  by (simp add: py_int_def strip_def is_space_def int_body_def is_digit_def nat_of_digits_def
      digit_val_def Let_def)

lemma py_int_0200000004: "py_int ''0200000004'' = Inr 200000004"
  by (simp add: py_int_def strip_def is_space_def int_body_def is_digit_def nat_of_digits_def
      digit_val_def Let_def)

lemma str_int_200000003: "str_int 200000003 = ''200000003''"
  by (simp add: str_int_def digits_of.simps)

lemma format_missing_200000003: "format_missing ''020'' 200000003 = ''0200000003''"
  by (simp add: format_missing_def str_int_200000003 zfill_def)

lemma scenario_A_groups:
  "build_groups [] scenario_A = Inr [(''020'', [200000001, 200000002, 200000004])]"
  by (simp add: scenario_A_def startswith_def py_int_0200000001 py_int_0200000002
      py_int_0200000004)

lemma upto_single: "[200000003..200000003::int] = [200000003]"
  by (simp add: upto.simps)

lemma gaps_in_scenario_A_raw:
  "gaps_in ''020'' [200000001, 200000002, 200000004] = [format_missing ''020'' 200000003]"
  by (simp add: upto_single)

lemma gaps_in_scenario_A:
  "gaps_in ''020'' [200000001, 200000002, 200000004] = [''0200000003'']"
  unfolding gaps_in_scenario_A_raw format_missing_200000003 ..

lemma scenario_A_gaps: "detect_check_gaps scenario_A = Inr [''0200000003'']"
  by (simp add: detect_check_gaps_def scenario_A_groups sorted_set_def gaps_in_scenario_A
      del: gaps_in.simps)

lemma scenario_A_ocr_gaps: "ocr_detect_check_gaps scenario_A = [''0200000003'']"
  by (simp add: ocr_detect_check_gaps_def regular_nums_def ten_digits_def chomp_def
      scenario_A_def sorted_set_def is_digit_def nat_of_digits_def digit_val_def
      upto.simps format_missing_def str_int_200000003 zfill_def)


lemma scenario_A_amounts:
  "sum_list (map amount (filter (\<lambda>c. \<not> cancelled c) scenario_A)) = 175"
  "sum_list (map amount (filter cancelled scenario_A)) = 50"
  by (simp_all add: scenario_A_def)

section \<open>C1: net total against gross and cancel totals\<close>




section \<open>C7: Scenario A\<close>

text \<open>
  C7 as stated fails in its first number: the gross total of Scenario A is not 225.00. The
  cancelled record's 50.00 is no part of it.
\<close>

theorem scenario_A_counterexample:
  "ocr_gross_total (projr (compute_month_summary exact ''July'' scenario_A)) \<noteq> 225"
  by (simp add: compute_month_summary_def scenario_A_gaps scenario_A_amounts Let_def)

text \<open>
  C7, amended: on Scenario A the summary of the geometric parser has gross total 175.00 (the
  non-cancelled amounts 100.00 and 75.00), cancel total 50.00, net total 175.00, and its list
  of missing identifiers holds exactly the one identifier between the second and the third
  record, \<open>0200000003\<close>. The summary of the re-OCR parser has the same gross total, cancel
  total and missing identifier, and net total 125.00.
\<close>

theorem scenario_A_summary:
  "\<not> isl (compute_month_summary exact ''July'' scenario_A) \<and>
   ocr_gross_total (projr (compute_month_summary exact ''July'' scenario_A)) = 175 \<and>
   ocr_cancel_total (projr (compute_month_summary exact ''July'' scenario_A)) = 50 \<and>
   ocr_net_total (projr (compute_month_summary exact ''July'' scenario_A)) = 175 \<and>
   missing_check_numbers (projr (compute_month_summary exact ''July'' scenario_A)) = [''0200000003''] \<and>
   ocr_gross_total (ocr_compute_month_summary exact ''July'' scenario_A []) = 175 \<and>
   ocr_cancel_total (ocr_compute_month_summary exact ''July'' scenario_A []) = 50 \<and>
   ocr_net_total (ocr_compute_month_summary exact ''July'' scenario_A []) = 125 \<and>
   missing_check_numbers (ocr_compute_month_summary exact ''July'' scenario_A []) = [''0200000003'']"
  by (simp add: compute_month_summary_def ocr_compute_month_summary_def scenario_A_gaps
      scenario_A_ocr_gaps scenario_A_amounts Let_def)

section \<open>C5: date carry-forward\<close>

lemma fix_loop_length [simp]: "length (fix_missing_dates_loop l cs) = length cs"
  by (induction cs arbitrary: l) auto

lemma nearest_date_Cons:
  "nearest_date l (d # ds) = nearest_date (if d \<noteq> [] then d else l) ds"
  by (cases "filter (\<lambda>d. d \<noteq> []) ds") (auto simp: nearest_date_def)

lemma fix_loop_nth:
  "i < length cs \<Longrightarrow>
   fix_missing_dates_loop l cs ! i =
     (if date (cs ! i) \<noteq> [] then cs ! i
      else (cs ! i)\<lparr>date := nearest_date l (map date (take i cs))\<rparr>)"
proof (induction cs arbitrary: l i)
  case Nil
  then show ?case by simp
next
  case (Cons c cs)
  show ?case
  proof (cases i)
    case 0
    then show ?thesis by (simp add: nearest_date_def)
  next
    case (Suc j)
    with Cons.prems have j: "j < length cs" by simp
    show ?thesis
      using Cons.IH [OF j] Suc by (simp add: nearest_date_Cons)
  qed
qed

lemma nearest_date_nonempty:
  "l \<noteq> [] \<or> (\<exists>d\<in>set ds. d \<noteq> []) \<Longrightarrow> nearest_date l ds \<noteq> []"
proof -
  assume a: "l \<noteq> [] \<or> (\<exists>d\<in>set ds. d \<noteq> [])"
  show ?thesis
  proof (cases "filter (\<lambda>d. d \<noteq> []) ds")
    case Nil
    then have "\<forall>d\<in>set ds. d = []" by (simp add: filter_empty_conv)
    with a Nil show ?thesis by (auto simp: nearest_date_def)
  next
    case (Cons d r)
    have "last (d # r) \<in> set (filter (\<lambda>d. d \<noteq> []) ds)"
      unfolding Cons by (rule last_in_set) simp
    then have "last (d # r) \<noteq> []" by simp
    with Cons show ?thesis by (simp add: nearest_date_def)
  qed
qed

text \<open>
  C5, amended: \<open>fix_missing_dates\<close> keeps the length and order of the list and every
  record that has a date; a record without a date gets the nearest preceding non-empty date,
  and it gets the empty string when no record before it has a date. A record has a non-empty
  date afterwards whenever it or some record before it had one.
\<close>

theorem fix_missing_dates_carries:
  "length (fix_missing_dates checks) = length checks \<and>
   (\<forall>i < length checks.
      fix_missing_dates checks ! i =
        (if date (checks ! i) \<noteq> [] then checks ! i
         else (checks ! i)\<lparr>date := nearest_date [] (map date (take i checks))\<rparr>) \<and>
      ((\<exists>j \<le> i. date (checks ! j) \<noteq> []) \<longrightarrow> date (fix_missing_dates checks ! i) \<noteq> []))"
proof (intro conjI allI impI)
  show "length (fix_missing_dates checks) = length checks"
    by (simp add: fix_missing_dates_def)
next
  fix i assume i: "i < length checks"
  show eq: "fix_missing_dates checks ! i =
        (if date (checks ! i) \<noteq> [] then checks ! i
         else (checks ! i)\<lparr>date := nearest_date [] (map date (take i checks))\<rparr>)"
    using fix_loop_nth [OF i] by (simp add: fix_missing_dates_def)
  assume "\<exists>j \<le> i. date (checks ! j) \<noteq> []"
  then obtain j where j: "j \<le> i" "date (checks ! j) \<noteq> []" by blast
  show "date (fix_missing_dates checks ! i) \<noteq> []"
  proof (cases "date (checks ! i) \<noteq> []")
    case True
    with eq show ?thesis by simp
  next
    case False
    with j have "j < i" by (cases "j = i") auto
    with i have "take i checks ! j = checks ! j" "j < length (take i checks)"
      by simp_all
    then have "checks ! j \<in> set (take i checks)"
      by (metis nth_mem)
    then have "date (checks ! j) \<in> set (map date (take i checks))"
      by simp
    with j have "nearest_date [] (map date (take i checks)) \<noteq> []"
      by (intro nearest_date_nonempty) blast
    with eq False show ?thesis by simp
  qed
qed

text \<open>
  C5 as stated (no record is left with an empty date) fails when the first record has no
  date: \<open>last_date\<close> is still the empty string.
\<close>

theorem fix_missing_dates_counterexample:
  "date (hd (fix_missing_dates [undated, undated\<lparr>date := ''07/01/2025''\<rparr>])) = []"
  by (simp add: fix_missing_dates_def undated_def)

theorem fix_missing_dates_carries_witness:
  "length (fix_missing_dates dated_batch) = 4 \<and>
   fix_missing_dates dated_batch ! 1 = undated\<lparr>date := ''07/01/2025''\<rparr> \<and>
   date (fix_missing_dates dated_batch ! 3) = ''07/02/2025''"
proof -
  note T = fix_missing_dates_carries [of dated_batch]
  have len: "length dated_batch = 4"
    by (simp add: dated_batch_def)
  have one: "(1::nat) < length dated_batch" and three: "(3::nat) < length dated_batch"
    by (simp_all add: len)
  from T one have a: "fix_missing_dates dated_batch ! 1 =
        (if date (dated_batch ! 1) \<noteq> [] then dated_batch ! 1
         else (dated_batch ! 1)\<lparr>date := nearest_date [] (map date (take 1 dated_batch))\<rparr>)"
    by blast
  from T three have b: "fix_missing_dates dated_batch ! 3 =
        (if date (dated_batch ! 3) \<noteq> [] then dated_batch ! 3
         else (dated_batch ! 3)\<lparr>date := nearest_date [] (map date (take 3 dated_batch))\<rparr>)"
    by blast
  have a': "fix_missing_dates dated_batch ! 1 = undated\<lparr>date := ''07/01/2025''\<rparr>"
    unfolding a by (simp add: dated_batch_def undated_def nearest_date_def)
  have b': "date (fix_missing_dates dated_batch ! 3) = ''07/02/2025''"
    unfolding b by (simp add: dated_batch_def undated_def nearest_date_def numeral_3_eq_3)
  from T len a' b' show ?thesis by simp
qed

section \<open>C10 and C3: what inference changes\<close>

lemma infer_step_cases:
  "infer_step s i = s \<or> (\<exists>cn. infer_step s i = s[i := (s ! i)\<lparr>check_number := cn\<rparr>])"
  by (auto simp: infer_step_def split: option.splits)

lemma infer_step_length [simp]: "length (infer_step s i) = length s"
  using infer_step_cases [of s i] by auto

lemma infer_step_nth_other: "j \<noteq> i \<Longrightarrow> infer_step s i ! j = s ! j"
  using infer_step_cases [of s i] by auto


lemma infer_step_frame:
  "\<exists>cn. infer_step s i ! j = (s ! j)\<lparr>check_number := cn\<rparr>"
proof (cases "j = i \<and> i < length s")
  case True
  from infer_step_cases [of s i] show ?thesis
  proof
    assume "infer_step s i = s"
    then have "infer_step s i ! j = (s ! j)\<lparr>check_number := check_number (s ! j)\<rparr>"
      by simp
    then show ?thesis ..
  next
    assume "\<exists>cn. infer_step s i = s[i := (s ! i)\<lparr>check_number := cn\<rparr>]"
    then obtain cn where "infer_step s i = s[i := (s ! i)\<lparr>check_number := cn\<rparr>]" ..
    with True have "infer_step s i ! j = (s ! j)\<lparr>check_number := cn\<rparr>"
      by simp
    then show ?thesis ..
  qed
next
  case False
  have "infer_step s i ! j = s ! j"
  proof (cases "j = i")
    case True
    with False have "length s \<le> i" by simp
    then have "infer_step s i = s"
      using infer_step_cases [of s i] by (auto simp: list_update_beyond)
    then show ?thesis by simp
  next
    case False
    then show ?thesis by (rule infer_step_nth_other)
  qed
  then have "infer_step s i ! j = (s ! j)\<lparr>check_number := check_number (s ! j)\<rparr>"
    by simp
  then show ?thesis ..
qed



lemma foldl_step_length [simp]: "length (foldl infer_step s is) = length s"
  by (induction "is" arbitrary: s) simp_all

lemma foldl_step_nth_other: "j \<notin> set is \<Longrightarrow> foldl infer_step s is ! j = s ! j"
proof (induction "is" arbitrary: s)
  case Nil
  show ?case by simp
next
  case (Cons i "is")
  from Cons.prems have ji: "j \<noteq> i" and j: "j \<notin> set is" by simp_all
  have "foldl infer_step (infer_step s i) is ! j = infer_step s i ! j"
    using j by (rule Cons.IH)
  also have "\<dots> = s ! j"
    using ji by (rule infer_step_nth_other)
  finally show ?case by simp
qed

lemma foldl_step_frame:
  "\<exists>cn. foldl infer_step s is ! j = (s ! j)\<lparr>check_number := cn\<rparr>"
proof (induction "is" arbitrary: s)
  case Nil
  have "foldl infer_step s [] ! j = (s ! j)\<lparr>check_number := check_number (s ! j)\<rparr>"
    by simp
  then show ?case ..
next
  case (Cons i "is")
  obtain cn where a: "foldl infer_step (infer_step s i) is ! j
      = (infer_step s i ! j)\<lparr>check_number := cn\<rparr>"
    using Cons.IH by blast
  obtain cn' where b: "infer_step s i ! j = (s ! j)\<lparr>check_number := cn'\<rparr>"
    using infer_step_frame by blast
  have "foldl infer_step s (i # is) ! j = (s ! j)\<lparr>check_number := cn\<rparr>"
    by (simp add: a b)
  then show ?case ..
qed



lemma missing_indices_props:
  "sorted (missing_indices checks)" "distinct (missing_indices checks)"
  "i \<in> set (missing_indices checks) \<longleftrightarrow> i < length checks \<and> check_number (checks ! i) = MISSING"
  by (auto simp: missing_indices_def sorted_wrt_filter)

lemma infer_eq_foldl:
  "infer_missing_check_numbers checks = foldl infer_step checks (missing_indices checks)"
  by (simp add: infer_missing_check_numbers_def)

text \<open>
  C10: \<open>infer_missing_check_numbers\<close> keeps the length and order of the list; each record
  of the result is the record at the same position of the input with at most its
  \<open>check_number\<close> replaced, and a record whose identifier is not the placeholder is unchanged.
\<close>

theorem infer_missing_frame:
  "length (infer_missing_check_numbers checks) = length checks \<and>
   (\<forall>i < length checks.
      infer_missing_check_numbers checks ! i
        = (checks ! i)\<lparr>check_number := check_number (infer_missing_check_numbers checks ! i)\<rparr> \<and>
      (check_number (checks ! i) \<noteq> MISSING \<longrightarrow>
         infer_missing_check_numbers checks ! i = checks ! i))"
proof (intro conjI allI impI)
  show "length (infer_missing_check_numbers checks) = length checks"
    by (simp add: infer_eq_foldl)
next
  fix i
  obtain cn where "infer_missing_check_numbers checks ! i = (checks ! i)\<lparr>check_number := cn\<rparr>"
    unfolding infer_eq_foldl using foldl_step_frame by blast
  then show "infer_missing_check_numbers checks ! i
        = (checks ! i)\<lparr>check_number := check_number (infer_missing_check_numbers checks ! i)\<rparr>"
    by simp
next
  fix i assume "i < length checks" "check_number (checks ! i) \<noteq> MISSING"
  then have "i \<notin> set (missing_indices checks)"
    by (simp add: missing_indices_props)
  then show "infer_missing_check_numbers checks ! i = checks ! i"
    unfolding infer_eq_foldl by (rule foldl_step_nth_other)
qed



lemma numeric_id_0200000001: "numeric_id ''0200000001'' = Some (''020'', 200000001)"
  by (simp add: numeric_id_def ten_digits_def chomp_def is_digit_def nat_of_digits_def
      digit_val_def)

lemma numeric_id_0200000002: "numeric_id ''0200000002'' = Some (''020'', 200000002)"
  by (simp add: numeric_id_def ten_digits_def chomp_def is_digit_def nat_of_digits_def
      digit_val_def)

lemma numeric_id_0200000003: "numeric_id ''0200000003'' = Some (''020'', 200000003)"
  by (simp add: numeric_id_def ten_digits_def chomp_def is_digit_def nat_of_digits_def
      digit_val_def)

lemma numeric_id_MISSING: "numeric_id MISSING = None"
  by (simp add: numeric_id_def ten_digits_def ddp_digits_def chomp_def startswith_def
      MISSING_def)

lemma format_missing_200000002: "format_missing ''020'' 200000002 = ''0200000002''"
  by (simp add: format_missing_def str_int_def digits_of.simps zfill_def)

lemma MISSING_neq: "''0200000001'' \<noteq> MISSING" "''0200000003'' \<noteq> MISSING"
  by (simp_all add: MISSING_def)

lemma gap_batch_inferred:
  "infer_missing_check_numbers gap_batch =
     [numbered ''0200000001'', numbered ''0200000002'', numbered ''0200000003'']"
  by (simp add: infer_missing_check_numbers_def missing_indices_def gap_batch_def
      infer_step_def numbered_def MISSING_neq numeric_id_0200000001 numeric_id_0200000003
      numeric_id_MISSING format_missing_200000002)


theorem infer_missing_frame_witness:
  "length (infer_missing_check_numbers gap_batch) = 3 \<and>
   infer_missing_check_numbers gap_batch ! 0 = numbered ''0200000001'' \<and>
   infer_missing_check_numbers gap_batch ! 1 = (numbered MISSING)\<lparr>check_number := ''0200000002''\<rparr>"
proof -
  note T = infer_missing_frame [of gap_batch]
  have len: "length gap_batch = 3"
    by (simp add: gap_batch_def)
  have zero: "(0::nat) < length gap_batch" and one: "(1::nat) < length gap_batch"
    by (simp_all add: len)
  have "check_number (gap_batch ! 0) \<noteq> MISSING"
    by (simp add: gap_batch_def numbered_def MISSING_neq)
  with T zero have a: "infer_missing_check_numbers gap_batch ! 0 = gap_batch ! 0"
    by blast
  from T one have b: "infer_missing_check_numbers gap_batch ! 1
      = (gap_batch ! 1)\<lparr>check_number := check_number (infer_missing_check_numbers gap_batch ! 1)\<rparr>"
    by blast
  have c: "check_number (infer_missing_check_numbers gap_batch ! 1) = ''0200000002''"
    by (simp add: gap_batch_inferred numbered_def)
  have a': "infer_missing_check_numbers gap_batch ! 0 = numbered ''0200000001''"
    unfolding a by (simp add: gap_batch_def)
  have b': "infer_missing_check_numbers gap_batch ! 1
      = (numbered MISSING)\<lparr>check_number := ''0200000002''\<rparr>"
    using b unfolding c by (simp add: gap_batch_def)
  from T len a' b' show ?thesis by simp
qed



section \<open>C9: grouping under permutation of the words\<close>

lemma filter_eq_replicate_count: "filter (\<lambda>x. k = x) zs = replicate (count_list zs k) k"
  by (induction zs) auto

lemma sort_key_permutation:
  assumes m: "mset ys = mset xs" and inj: "inj_on f (set xs)"
  shows "sort_key f ys = sort_key f xs"
proof (rule sym, rule properties_for_sort_key)
  show "mset (sort_key f ys) = mset xs"
    using m by simp
  show "sorted (map f (sort_key f ys))"
    by simp
next
  fix k assume "k \<in> set (sort_key f ys)"
  from m have sets: "set ys = set xs"
    by (rule mset_eq_setD)
  with \<open>k \<in> set (sort_key f ys)\<close> have k: "k \<in> set xs" by simp
  have "filter (\<lambda>x. f k = f x) (sort_key f ys) = filter (\<lambda>x. k = x) (sort_key f ys)"
    using inj k sets by (intro filter_cong) (auto dest: inj_onD)
  also have "\<dots> = replicate (count_list (sort_key f ys) k) k"
    by (rule filter_eq_replicate_count)
  also have "count_list (sort_key f ys) k = count_list xs k"
  proof -
    have "mset (sort_key f ys) = mset xs"
      using m by simp
    then show ?thesis
      by (metis count_mset)
  qed
  also have "replicate (count_list xs k) k = filter (\<lambda>x. k = x) xs"
    by (rule filter_eq_replicate_count [symmetric])
  also have "\<dots> = filter (\<lambda>x. f k = f x) xs"
    using inj k by (intro filter_cong) (auto dest: inj_onD)
  finally show "filter (\<lambda>x. f k = f x) (sort_key f ys) = filter (\<lambda>x. f k = f x) xs" .
qed

lemma rows_loop_sorted:
  "\<forall>r\<in>set rows. sorted (map w_x r) \<Longrightarrow>
   \<forall>r\<in>set (rows_loop t rows cur cy ws). sorted (map w_x r)"
  by (induction t rows cur cy ws rule: rows_loop.induct) auto

text \<open>
  C9, amended: when no two different words of the list have the same position \<open>(x, y)\<close>,
  \<open>group_into_rows\<close> yields the identical sequence of rows for every permutation of the
  list; and, for every list, the words of each row are in the order of their \<open>x\<close>.
\<close>

theorem group_into_rows_permutation:
  "(mset ys = mset xs \<and> inj_on yx_key (set xs) \<longrightarrow>
      group_into_rows ys t = group_into_rows xs t) \<and>
   (\<forall>r\<in>set (group_into_rows xs t). sorted (map w_x r))"
proof (intro conjI impI)
  assume a: "mset ys = mset xs \<and> inj_on yx_key (set xs)"
  then have s: "sort_key yx_key ys = sort_key yx_key xs"
    by (intro sort_key_permutation) simp_all
  from a have "ys = [] \<longleftrightarrow> xs = []"
    by (metis mset_zero_iff)
  then show "group_into_rows ys t = group_into_rows xs t"
    by (simp add: group_into_rows_def s)
next
  show "\<forall>r\<in>set (group_into_rows xs t). sorted (map w_x r)"
  proof (cases "xs = []")
    case True
    then show ?thesis by (simp add: group_into_rows_def)
  next
    case False
    have "\<forall>r\<in>set (rows_loop t [] [hd (sort_key yx_key xs)]
               (w_y (hd (sort_key yx_key xs))) (tl (sort_key yx_key xs))). sorted (map w_x r)"
      by (rule rows_loop_sorted) simp
    with False show ?thesis by (simp add: group_into_rows_def Let_def)
  qed
qed

text \<open>
  C9 as stated (for every list and every permutation) fails when two different words have
  the same position: the stable sort keeps them in the order of the input.
\<close>

theorem group_into_rows_counterexample:
  "mset [word_B, word_A] = mset [word_A, word_B] \<and>
   group_into_rows [word_A, word_B] 20 = [[word_A, word_B]] \<and>
   group_into_rows [word_B, word_A] 20 = [[word_B, word_A]] \<and>
   word_A \<noteq> word_B"
  by (simp add: group_into_rows_def yx_key_def word_A_def word_B_def add_mset_commute)

theorem group_into_rows_permutation_witness:
  "mset [word_C, word_A] = mset [word_A, word_C] \<and>
   group_into_rows [word_C, word_A] 20 = group_into_rows [word_A, word_C] 20 \<and>
   list_all (\<lambda>r. sorted (map w_x r)) (group_into_rows [word_A, word_C] 20)"
proof -
  note T = group_into_rows_permutation [of "[word_C, word_A]" "[word_A, word_C]" 20]
  have m: "mset [word_C, word_A] = mset [word_A, word_C]"
    by (simp add: add_mset_commute)
  have i: "inj_on yx_key (set [word_A, word_C])"
    by (simp add: yx_key_def word_A_def word_C_def)
  from T m i have a: "group_into_rows [word_C, word_A] 20 = group_into_rows [word_A, word_C] 20"
    by blast
  from T have "\<forall>r\<in>set (group_into_rows [word_A, word_C] 20). sorted (map w_x r)"
    by blast
  then have b: "list_all (\<lambda>r. sorted (map w_x r)) (group_into_rows [word_A, word_C] 20)"
    by (simp add: list_all_iff)
  from m a b show ?thesis by blast
qed

section \<open>C6: the final verdict\<close>

lemma round_half_even_le: "of_int (round_half_even y) \<le> y + 1 / 2"
proof -
  have f: "(of_int \<lfloor>y\<rfloor> :: rat) \<le> y" by simp
  show ?thesis
  proof (cases "y - of_int \<lfloor>y\<rfloor> < 1 / 2")
    case True
    then have "(of_int (round_half_even y) :: rat) = of_int \<lfloor>y\<rfloor>"
      by (simp add: round_half_even_def Let_def)
    with f show ?thesis by linarith
  next
    case False
    then have "of_int (round_half_even y) \<le> (of_int \<lfloor>y\<rfloor> :: rat) + 1"
      by (simp add: round_half_even_def Let_def)
    with False show ?thesis by linarith
  qed
qed

lemma decimal_round2_le: "decimal_round2 x \<le> x + 1 / 200"
proof -
  have "of_int (round_half_even (x * 100)) \<le> x * 100 + 1 / 2"
    by (rule round_half_even_le)
  then show ?thesis
    by (simp add: decimal_round2_def field_simps)
qed

lemma compute_month_summary_pct:
  assumes "build_groups [] cs = Inr g"
  shows "\<exists>s. compute_month_summary N m cs = Inr s \<and>
     pct_difference s = n_round2 N (pct_diff_of N
        (n_sum N (map amount (filter (\<lambda>c. \<not> cancelled c) cs))) (cover_letter_total_of N m))"
  using assms by (simp add: compute_month_summary_def detect_check_gaps_def Let_def)

lemma monthly_loop_months:
  "monthly_loop N pm ms = Inr msums \<Longrightarrow>
   map fst msums = ms \<and>
   list_all (\<lambda>(m, s). compute_month_summary N m (month_records N pm m) = Inr s) msums"
proof (induction ms arbitrary: msums)
  case Nil
  then show ?case by simp
next
  case (Cons m ms)
  from Cons.prems obtain s rest where
    s: "compute_month_summary N m (month_records N pm m) = Inr s" and
    rest: "monthly_loop N pm ms = Inr rest" and
    msums: "msums = (m, s) # rest"
    by (auto simp: month_records_def Let_def split: sum.splits)
  from Cons.IH [OF rest] s msums show ?case by simp
qed

text \<open>
  C6, amended: the final verdict is \<open>PASS\<close> if and only if every month's percentage
  difference, as reported in its summary, is below 2; otherwise it is \<open>NEEDS REVIEW\<close>. The
  summaries are those of the months' records after the four passes, one per month in the
  order of \<open>MONTHS\<close>. Unresolved placeholders do not enter the verdict.
\<close>

theorem verdict_pass_iff:
  "(verdict N summaries = ''PASS'' \<longleftrightarrow>
      list_all (\<lambda>s. n_less N (pct_difference s) (n_int N 2)) summaries) \<and>
   (verdict N summaries \<noteq> ''PASS'' \<longrightarrow> verdict N summaries = ''NEEDS REVIEW'') \<and>
   (main_verdict N process_month = Inr v \<longrightarrow>
      (\<exists>msums. map fst msums = MONTHS \<and>
         list_all (\<lambda>(m, s). compute_month_summary N m (month_records N process_month m) = Inr s) msums \<and>
         v = verdict N (map snd msums)))"
proof (intro conjI impI)
  show "verdict N summaries = ''PASS'' \<longleftrightarrow>
      list_all (\<lambda>s. n_less N (pct_difference s) (n_int N 2)) summaries"
    by (simp add: verdict_def)
  show "verdict N summaries = ''NEEDS REVIEW''" if "verdict N summaries \<noteq> ''PASS''"
    using that by (simp add: verdict_def split: if_splits)
next
  assume "main_verdict N process_month = Inr v"
  then obtain msums where l: "monthly_loop N process_month MONTHS = Inr msums"
      and v: "v = verdict N (map snd msums)"
    by (auto simp: main_verdict_def split: sum.splits)
  from monthly_loop_months [OF l] v
  show "\<exists>msums. map fst msums = MONTHS \<and>
         list_all (\<lambda>(m, s). compute_month_summary N m (month_records N process_month m) = Inr s) msums \<and>
         v = verdict N (map snd msums)"
    by blast
qed


lemma monthly_loop_Cons_Inr:
  "compute_month_summary N m (month_records N pm m) = Inr s \<Longrightarrow>
   monthly_loop N pm ms = Inr rest \<Longrightarrow>
   monthly_loop N pm (m # ms) = Inr ((m, s) # rest)"
  by (simp add: month_records_def Let_def)

lemma py_int_0200000005: "py_int ''0200000005'' = Inr 200000005"
  by (simp add: py_int_def strip_def is_space_def int_body_def is_digit_def nat_of_digits_def
      digit_val_def Let_def)

lemma numeric_id_0200000005: "numeric_id ''0200000005'' = Some (''020'', 200000005)"
  by (simp add: numeric_id_def ten_digits_def chomp_def is_digit_def nat_of_digits_def
      digit_val_def)

lemma MISSING_neq_0200000005: "''0200000005'' \<noteq> MISSING"
  by (simp add: MISSING_def)

lemma single_records:
  assumes "pm m = [paid ''0200000001'' v a]" "a \<noteq> 0"
  shows "month_records exact pm m = [(paid ''0200000001'' v a)\<lparr>month := m\<rparr>]"
  using assms
  by (simp add: month_records_def fix_missing_dates_def paid_def infer_missing_check_numbers_def
      missing_indices_def MISSING_neq reconcile_amounts_def reconcile_check_def
      amount_missing_def assign_month_def exact_def)

lemma single_summary:
  assumes "pm m = [paid ''0200000001'' v a]" "a \<noteq> 0"
  shows "\<exists>s. compute_month_summary exact m (month_records exact pm m) = Inr s \<and>
     pct_difference s = decimal_round2 (pct_diff_of exact a (cover_letter_total_of exact m))"
proof -
  have g: "build_groups [] (month_records exact pm m) = Inr [(''020'', [200000001])]"
    unfolding single_records [of pm m v a, OF assms]
    by (simp add: paid_def startswith_def py_int_0200000001)
  from compute_month_summary_pct [OF g, of exact m] show ?thesis
    unfolding single_records [of pm m v a, OF assms] by (simp add: paid_def)
qed

lemma reconcile_paid: "a \<noteq> 0 \<Longrightarrow> reconcile_check exact (paid cn v a) = paid cn v a"
  by (simp add: reconcile_check_def amount_missing_def exact_def paid_def)

lemma july_infer:
  "infer_missing_check_numbers
      [paid ''0200000001'' ''ALPHA'' 60000000, paid MISSING ''BETA'' 100,
       paid ''0200000005'' ''GAMMA'' 200]
    = [paid ''0200000001'' ''ALPHA'' 60000000, paid MISSING ''BETA'' 100,
       paid ''0200000005'' ''GAMMA'' 200]"
  by (simp add: infer_missing_check_numbers_def missing_indices_def infer_step_def paid_def
      MISSING_neq MISSING_neq_0200000005 numeric_id_0200000001 numeric_id_0200000005
      numeric_id_MISSING)

lemma july_dates:
  "fix_missing_dates
      [paid ''0200000001'' ''ALPHA'' 60000000, paid MISSING ''BETA'' 100,
       paid ''0200000005'' ''GAMMA'' 200]
    = [paid ''0200000001'' ''ALPHA'' 60000000, paid MISSING ''BETA'' 100,
       paid ''0200000005'' ''GAMMA'' 200]"
  by (simp add: fix_missing_dates_def paid_def)

lemma july_run:
  "placeholder_run ''July'' =
     [paid ''0200000001'' ''ALPHA'' 60000000, paid MISSING ''BETA'' 100,
      paid ''0200000005'' ''GAMMA'' 200]"
  by (simp add: placeholder_run_def)

lemma july_records:
  "month_records exact placeholder_run ''July'' =
     [(paid ''0200000001'' ''ALPHA'' 60000000)\<lparr>month := ''July''\<rparr>,
      (paid MISSING ''BETA'' 100)\<lparr>month := ''July''\<rparr>,
      (paid ''0200000005'' ''GAMMA'' 200)\<lparr>month := ''July''\<rparr>]"
  unfolding month_records_def july_run july_dates july_infer
  by (simp add: reconcile_amounts_def reconcile_paid assign_month_def)

lemma july_summary:
  "\<exists>s. compute_month_summary exact ''July'' (month_records exact placeholder_run ''July'') = Inr s \<and>
     pct_difference s = decimal_round2 (pct_diff_of exact 60000300 (cover_letter_total_of exact ''July''))"
proof -
  have g: "build_groups [] (month_records exact placeholder_run ''July'')
      = Inr [(''020'', [200000001, 200000005])]"
    unfolding july_records
    by (simp add: paid_def startswith_def py_int_0200000001 py_int_0200000005 MISSING_def)
  from compute_month_summary_pct [OF g, of exact "''July''"] show ?thesis
    unfolding july_records by (simp add: paid_def)
qed

lemma pct_below:
  "decimal_round2 (pct_diff_of exact 60000300 (cover_letter_total_of exact ''July'')) < 2"
  "decimal_round2 (pct_diff_of exact 24700000 (cover_letter_total_of exact ''August'')) < 2"
  "decimal_round2 (pct_diff_of exact 65280000 (cover_letter_total_of exact ''September'')) < 2"
  "decimal_round2 (pct_diff_of exact 52194000 (cover_letter_total_of exact ''October'')) < 2"
  "decimal_round2 (pct_diff_of exact 50948000 (cover_letter_total_of exact ''November'')) < 2"
  "decimal_round2 (pct_diff_of exact 59059000 (cover_letter_total_of exact ''December'')) < 2"
proof -
  have b: "x < 1 \<Longrightarrow> decimal_round2 x < 2" for x
    using decimal_round2_le [of x] by linarith
  show "decimal_round2 (pct_diff_of exact 60000300 (cover_letter_total_of exact ''July'')) < 2"
    by (rule b) (simp add: pct_diff_of_def exact_def cover_letter_total_of_def COVER_LETTER_TOTALS_def)
  show "decimal_round2 (pct_diff_of exact 24700000 (cover_letter_total_of exact ''August'')) < 2"
    by (rule b) (simp add: pct_diff_of_def exact_def cover_letter_total_of_def COVER_LETTER_TOTALS_def)
  show "decimal_round2 (pct_diff_of exact 65280000 (cover_letter_total_of exact ''September'')) < 2"
    by (rule b) (simp add: pct_diff_of_def exact_def cover_letter_total_of_def COVER_LETTER_TOTALS_def)
  show "decimal_round2 (pct_diff_of exact 52194000 (cover_letter_total_of exact ''October'')) < 2"
    by (rule b) (simp add: pct_diff_of_def exact_def cover_letter_total_of_def COVER_LETTER_TOTALS_def)
  show "decimal_round2 (pct_diff_of exact 50948000 (cover_letter_total_of exact ''November'')) < 2"
    by (rule b) (simp add: pct_diff_of_def exact_def cover_letter_total_of_def COVER_LETTER_TOTALS_def)
  show "decimal_round2 (pct_diff_of exact 59059000 (cover_letter_total_of exact ''December'')) < 2"
    by (rule b) (simp add: pct_diff_of_def exact_def cover_letter_total_of_def COVER_LETTER_TOTALS_def)
qed

lemma placeholder_run_loop:
  "\<exists>msums. monthly_loop exact placeholder_run MONTHS = Inr msums \<and>
     list_all (\<lambda>s. pct_difference s < 2) (map snd msums)"
proof -
  obtain s1 where s1: "compute_month_summary exact ''July'' (month_records exact placeholder_run ''July'') = Inr s1"
      "pct_difference s1 < 2"
    using july_summary pct_below(1) by auto
  obtain s2 where s2: "compute_month_summary exact ''August'' (month_records exact placeholder_run ''August'') = Inr s2"
      "pct_difference s2 < 2"
    using single_summary [of placeholder_run "''August''" "''ALPHA''" 24700000] pct_below(2)
    by (auto simp: placeholder_run_def)
  obtain s3 where s3: "compute_month_summary exact ''September'' (month_records exact placeholder_run ''September'') = Inr s3"
      "pct_difference s3 < 2"
    using single_summary [of placeholder_run "''September''" "''ALPHA''" 65280000] pct_below(3)
    by (auto simp: placeholder_run_def)
  obtain s4 where s4: "compute_month_summary exact ''October'' (month_records exact placeholder_run ''October'') = Inr s4"
      "pct_difference s4 < 2"
    using single_summary [of placeholder_run "''October''" "''ALPHA''" 52194000] pct_below(4)
    by (auto simp: placeholder_run_def)
  obtain s5 where s5: "compute_month_summary exact ''November'' (month_records exact placeholder_run ''November'') = Inr s5"
      "pct_difference s5 < 2"
    using single_summary [of placeholder_run "''November''" "''ALPHA''" 50948000] pct_below(5)
    by (auto simp: placeholder_run_def)
  obtain s6 where s6: "compute_month_summary exact ''December'' (month_records exact placeholder_run ''December'') = Inr s6"
      "pct_difference s6 < 2"
    using single_summary [of placeholder_run "''December''" "''ALPHA''" 59059000] pct_below(6)
    by (auto simp: placeholder_run_def)
  have l0: "monthly_loop exact placeholder_run [] = Inr []"
    by simp
  note l6 = monthly_loop_Cons_Inr [OF s6(1) l0]
  note l5 = monthly_loop_Cons_Inr [OF s5(1) l6]
  note l4 = monthly_loop_Cons_Inr [OF s4(1) l5]
  note l3 = monthly_loop_Cons_Inr [OF s3(1) l4]
  note l2 = monthly_loop_Cons_Inr [OF s2(1) l3]
  note l1 = monthly_loop_Cons_Inr [OF s1(1) l2]
  have "monthly_loop exact placeholder_run MONTHS
      = Inr [(''July'', s1), (''August'', s2), (''September'', s3), (''October'', s4),
             (''November'', s5), (''December'', s6)]"
    unfolding MONTHS_def by (rule l1)
  moreover have "list_all (\<lambda>s. pct_difference s < 2)
      (map snd [(''July'', s1), (''August'', s2), (''September'', s3), (''October'', s4),
             (''November'', s5), (''December'', s6)])"
    using s1(2) s2(2) s3(2) s4(2) s5(2) s6(2) by simp
  ultimately show ?thesis by blast
qed

lemma placeholder_run_verdict: "main_verdict exact placeholder_run = Inr ''PASS''"
proof -
  from placeholder_run_loop obtain msums where
    "monthly_loop exact placeholder_run MONTHS = Inr msums"
    "list_all (\<lambda>s. pct_difference s < 2) (map snd msums)"
    by blast
  then show ?thesis
    by (simp add: main_verdict_def verdict_def exact_def)
qed

text \<open>
  C6 as stated (\<open>PASS\<close> only if no unresolved placeholder remains) fails: in
  \<open>placeholder_run\<close> every month is within tolerance and the verdict is \<open>PASS\<close>, while one
  record of July still carries the placeholder after inference.
\<close>

theorem verdict_counterexample:
  "main_verdict exact placeholder_run = Inr ''PASS'' \<and>
   still_missing (month_records exact placeholder_run ''July'') = 1"
  by (simp add: placeholder_run_verdict july_records still_missing_def)
    (simp add: paid_def MISSING_def)

theorem verdict_pass_iff_witness:
  "main_verdict exact placeholder_run = Inr ''PASS'' \<and>
   (\<exists>msums :: (string \<times> rat summary) list. map fst msums = MONTHS \<and>
      list_all (\<lambda>s. n_less exact (pct_difference s) (n_int exact 2)) (map snd msums))"
proof -
  have v: "main_verdict exact placeholder_run = Inr ''PASS''"
    by (rule placeholder_run_verdict)
  note T = verdict_pass_iff [of exact "[] :: rat summary list" placeholder_run "''PASS''"]
  from T v obtain msums :: "(string \<times> rat summary) list" where m: "map fst msums = MONTHS"
      "''PASS'' = verdict exact (map snd msums)"
    by blast
  note U = verdict_pass_iff [of exact "map snd msums" placeholder_run "''PASS''"]
  from U m(2)
  have "list_all (\<lambda>s. n_less exact (pct_difference s) (n_int exact 2)) (map snd msums)"
    by simp
  with v m(1) show ?thesis by blast
qed

section \<open>C2: the amount of a check of several lines\<close>

lemma classify_GAMMA: "classify_row ''GAMMA'' = Data"
  by (simp add: classify_row_def startswith_def strip_def is_space_def)

lemma classify_empty: "classify_row [] = Data"
  by (simp add: classify_row_def startswith_def strip_def)

lemma two_rows_parsed: "parse_page exact two_rows 2 = Inr [two_rows_check]"
  by (simp add: parse_page_def is_data_page_def two_rows_def get_str_def classify_GAMMA
      classify_empty row_step_def new_check_def amount_or_zero_def is_new_check_def
      has_amount_def continuation_def flush_def exact_def Let_def two_rows_check_def)

text \<open>
  C2 fails in the code: the two rows of \<open>two_rows\<close> carry no check amount, and the record
  parsed from them has the two sub-lines 40.00 and 35.00, whose rounded sum is 75.00; yet its
  amount after \<open>reconcile_amounts\<close> is 40.00, the expensed amount of the first row.
\<close>

theorem two_rows_amount:
  "parse_page exact two_rows 2 = Inr [two_rows_check] \<and>
   list_all (\<lambda>rf. rf_check_amt rf = None) two_rows \<and>
   reconcile_amounts exact [two_rows_check] = [two_rows_check] \<and>
   \<not> cancelled two_rows_check \<and>
   length (sub_lines two_rows_check) = 2 \<and>
   n_round2 exact (n_sum exact (map exp_amount (sub_lines two_rows_check))) = 75 \<and>
   amount two_rows_check = 40"
  by (simp add: two_rows_parsed) (simp add: two_rows_def two_rows_check_def
      reconcile_amounts_def reconcile_check_def amount_missing_def exact_def)

section \<open>Decimal digits\<close>

lemma digit_chars:
  "n < 10 \<Longrightarrow> is_digit (''0123456789'' ! n) \<and> digit_val (''0123456789'' ! n) = n \<and>
     \<not> is_space (''0123456789'' ! n) \<and> ''0123456789'' ! n \<noteq> CHR ''+'' \<and>
     ''0123456789'' ! n \<noteq> CHR ''-'' \<and> ''0123456789'' ! n \<noteq> CHR 0x0A"
proof -
  assume "n < 10"
  then consider "n = 0" | "n = 1" | "n = 2" | "n = 3" | "n = 4" | "n = 5" | "n = 6" | "n = 7"
    | "n = 8" | "n = 9"
    by atomize_elim arith
  then show ?thesis
    by cases (simp_all add: is_digit_def digit_val_def is_space_def)
qed

lemma nat_of_digits_snoc: "nat_of_digits (s @ [c]) = 10 * nat_of_digits s + digit_val c"
  by (simp add: nat_of_digits_def)

lemma nat_of_digits_single: "nat_of_digits [c] = digit_val c"
  by (simp add: nat_of_digits_def)

lemma digits_of_digits: "list_all is_digit (digits_of n)"
proof (induction n rule: digits_of.induct)
  case (1 n)
  show ?case
  proof (cases "n < 10")
    case True
    then show ?thesis
      using digit_chars [of n] by (subst digits_of.simps) simp
  next
    case False
    have "n mod 10 < 10" by simp
    then have "is_digit (''0123456789'' ! (n mod 10))"
      using digit_chars by blast
    with False 1 show ?thesis
      by (subst digits_of.simps) simp
  qed
qed

lemma nat_of_digits_of: "nat_of_digits (digits_of n) = n"
proof (induction n rule: digits_of.induct)
  case (1 n)
  show ?case
  proof (cases "n < 10")
    case True
    then show ?thesis
      using digit_chars [of n] by (subst digits_of.simps) (simp add: nat_of_digits_single)
  next
    case False
    have "n mod 10 < 10" by simp
    then have "digit_val (''0123456789'' ! (n mod 10)) = n mod 10"
      using digit_chars by blast
    with False 1 show ?thesis
      by (subst digits_of.simps) (simp add: nat_of_digits_snoc)
  qed
qed

lemma digits_of_nonempty: "digits_of n \<noteq> []"
  by (subst digits_of.simps) simp

lemma digits_of_length: "n < 10 ^ k \<Longrightarrow> 0 < k \<Longrightarrow> length (digits_of n) \<le> k"
proof (induction n arbitrary: k rule: digits_of.induct)
  case (1 n)
  show ?case
  proof (cases "n < 10")
    case True
    with 1 show ?thesis by (subst digits_of.simps) simp
  next
    case False
    from 1(3) obtain j where k: "k = Suc j" by (cases k) auto
    from False 1(2) k have "0 < j" by (cases j) auto
    moreover from 1(2) k have "n div 10 < 10 ^ j"
      by (simp add: less_mult_imp_div_less mult.commute)
    ultimately have "length (digits_of (n div 10)) \<le> j"
      using 1(1) [OF False] by blast
    with False k show ?thesis by (subst digits_of.simps) simp
  qed
qed

lemma nat_of_digits_zeros: "nat_of_digits (replicate k CHR ''0'' @ s) = nat_of_digits s"
proof -
  have "foldl (\<lambda>a c. 10 * a + digit_val c) 0 (replicate k CHR ''0'') = 0"
    by (induction k) (simp_all add: digit_val_def)
  then show ?thesis by (simp add: nat_of_digits_def)
qed

lemma is_digit_zero: "is_digit CHR ''0''"
  by (simp add: is_digit_def)

lemma hd_digit_not_sign: "is_digit c \<Longrightarrow> c \<noteq> CHR ''+'' \<and> c \<noteq> CHR ''-'' \<and> \<not> is_space c \<and> c \<noteq> CHR 0x0A \<and> c \<noteq> CHR ''_''"
  by (auto simp: is_digit_def is_space_def)

text \<open>\<open>str(n).zfill(w)\<close> for a natural number: the digits, padded with zeros on the left.\<close>

lemma zfill_digits:
  "zfill w (digits_of n) = replicate (w - length (digits_of n)) CHR ''0'' @ digits_of n"
proof (cases "digits_of n")
  case Nil
  with digits_of_nonempty show ?thesis by blast
next
  case (Cons c t)
  have "is_digit c"
    using digits_of_digits [of n] Cons by simp
  then have "c \<noteq> CHR ''+'' \<and> c \<noteq> CHR ''-''"
    using hd_digit_not_sign by blast
  with Cons show ?thesis by (simp add: zfill_def)
qed

lemma zfill_digits_props:
  "list_all is_digit (zfill w (digits_of n))"
  "nat_of_digits (zfill w (digits_of n)) = n"
  "zfill w (digits_of n) \<noteq> []"
  "length (digits_of n) \<le> w \<Longrightarrow> length (zfill w (digits_of n)) = w"
proof -
  have "list_all is_digit (replicate (w - length (digits_of n)) CHR ''0'')"
    by (simp add: list_all_iff is_digit_zero)
  then show "list_all is_digit (zfill w (digits_of n))"
    by (simp add: zfill_digits digits_of_digits)
  show "nat_of_digits (zfill w (digits_of n)) = n"
    by (simp add: zfill_digits nat_of_digits_zeros nat_of_digits_of)
  show "zfill w (digits_of n) \<noteq> []"
    by (simp add: zfill_digits digits_of_nonempty)
  show "length (zfill w (digits_of n)) = w" if "length (digits_of n) \<le> w"
    using that by (simp add: zfill_digits)
qed

text \<open>\<open>int(s)\<close> of a non-empty string of digits is the number they denote.\<close>

lemma int_body_ok_digits: "list_all is_digit s \<Longrightarrow> int_body_ok b s = (b \<or> s \<noteq> [])"
  by (induction s arbitrary: b) auto

lemma strip_digits: "list_all is_digit s \<Longrightarrow> strip s = s"
proof -
  assume a: "list_all is_digit s"
  then have ns: "\<forall>c\<in>set s. \<not> is_space c"
    using hd_digit_not_sign by (auto simp: list_all_iff)
  have d: "dropWhile is_space xs = xs" if "\<forall>c\<in>set xs. \<not> is_space c" for xs
    using that by (cases xs) auto
  from ns have "dropWhile is_space s = s"
    by (rule d)
  moreover from ns have "dropWhile is_space (rev s) = rev s"
    by (intro d) simp
  ultimately show ?thesis by (simp add: strip_def)
qed

lemma py_int_digits:
  assumes "list_all is_digit s" "s \<noteq> []"
  shows "py_int s = Inr (int (nat_of_digits s))"
proof -
  from assms obtain c t where s: "s = c # t" by (cases s) auto
  with assms have "is_digit c" by simp
  then have c: "c \<noteq> CHR ''+''" "c \<noteq> CHR ''-''"
    using hd_digit_not_sign by blast+
  have f: "filter is_digit s = s"
    using assms(1) by (simp add: list_all_iff)
  have "int_body s = Inr (int (nat_of_digits s))"
    using assms by (simp add: int_body_def int_body_ok_digits f)
  then show ?thesis
    using c s strip_digits [OF assms(1)] by (simp add: py_int_def)
qed

end
